theory Spec2Isabelle
  imports Complex_Main
begin

section \<open>Values exchanged with the outside world\<close>

text \<open>
  The controller (\<^verbatim>\<open>syno_fan_control.py\<close>) talks to the DSM web API, to the sysfs sensor
  files and to its own state file, all in JSON or plain text. A JSON value as Python's
  \<^verbatim>\<open>json\<close> module delivers it: \<^verbatim>\<open>None\<close> is \<open>JNull\<close>, a number (int or float) is a real
  number, an object is an association list read with \<open>map_of\<close>. Floating-point
  temperatures and timestamps are modelled as real numbers, so the special floats (NaN,
  the infinities) and rounding are outside the model.
\<close>

datatype json =
    JNull
  | JBool bool
  | JNum real
  | JStr string
  | JArr "json list"
  | JObj "(string \<times> json) list"

text \<open>Python's truth value of an object, as \<^verbatim>\<open>if x\<close> and \<^verbatim>\<open>x or y\<close> test it.\<close>

fun truthy :: "json \<Rightarrow> bool" where
  "truthy JNull = False"
| "truthy (JBool b) = b"
| "truthy (JNum r) = (r \<noteq> 0)"
| "truthy (JStr s) = (s \<noteq> [])"
| "truthy (JArr xs) = (xs \<noteq> [])"
| "truthy (JObj kvs) = (kvs \<noteq> [])"

text \<open>\<^verbatim>\<open>a or b\<close>: the first operand when it is truthy, the second otherwise.\<close>

definition py_or :: "json \<Rightarrow> json \<Rightarrow> json" where
  "py_or a b = (if truthy a then a else b)"

text \<open>\<^verbatim>\<open>d.get(k)\<close> on a dict: the value, or \<^verbatim>\<open>None\<close> for a missing key.\<close>

definition dict_get :: "(string \<times> json) list \<Rightarrow> string \<Rightarrow> json" where
  "dict_get d k = (case map_of d k of None \<Rightarrow> JNull | Some v \<Rightarrow> v)"

text \<open>
  \<^verbatim>\<open>float(x)\<close>: a number is itself, a bool is 0 or 1, a string is parsed by Python's
  float parser, which is a parameter here (\<open>None\<close> is its \<^verbatim>\<open>ValueError\<close>); every other
  value raises \<^verbatim>\<open>TypeError\<close>. \<open>None\<close> stands for the exception.
\<close>

fun py_float :: "(string \<Rightarrow> real option) \<Rightarrow> json \<Rightarrow> real option" where
  "py_float parse (JNum r) = Some r"
| "py_float parse (JBool b) = Some (if b then 1 else 0)"
| "py_float parse (JStr s) = parse s"
| "py_float parse JNull = None"
| "py_float parse (JArr xs) = None"
| "py_float parse (JObj kvs) = None"

text \<open>
  The operand of \<^verbatim>\<open>time.time() - x\<close>: a number, or a bool (Python counts it as 0 or 1);
  on anything else the subtraction raises \<^verbatim>\<open>TypeError\<close> (\<open>None\<close>).
\<close>

fun as_number :: "json \<Rightarrow> real option" where
  "as_number (JNum r) = Some r"
| "as_number (JBool b) = Some (if b then 1 else 0)"
| "as_number JNull = None"
| "as_number (JStr s) = None"
| "as_number (JArr xs) = None"
| "as_number (JObj kvs) = None"

text \<open>
  The answer to one HTTP request, after \<^verbatim>\<open>raise_for_status()\<close> and \<^verbatim>\<open>r.json()\<close>:
  \<open>Failed\<close> when the transport, the status or the JSON decoding raised, the decoded body
  otherwise.
\<close>

datatype response = Failed | Body json

text \<open>
  One candidate file \<^verbatim>\<open>/sys/class/hwmon/hwmon*/temp*_input\<close>: what
  \<^verbatim>\<open>int(fh.read().strip())\<close> gives, an integer of millidegrees, or an exception from
  opening, reading or parsing.
\<close>

datatype sensor = Unreadable | Millideg int

section \<open>Configuration\<close>

definition TEMP_QUIET_MAX :: real where "TEMP_QUIET_MAX = 40"
definition TEMP_COOL_MAX :: real where "TEMP_COOL_MAX = 55"

definition QUIET_MODE :: string where "QUIET_MODE = ''quietfan''"
definition COOL_MODE :: string where "COOL_MODE = ''coolfan''"
definition FULL_MODE :: string where "FULL_MODE = ''fullfan''"

definition FORCE_REFRESH_INTERVAL :: real where "FORCE_REFRESH_INTERVAL = 300"
definition MIN_MODE_CHANGE_INTERVAL :: real where "MIN_MODE_CHANGE_INTERVAL = 60"

section \<open>The controller state and the world of one run\<close>

text \<open>
  \<^verbatim>\<open>self.state\<close> is a dict from field names to JSON values. The state file holds what
  \<^verbatim>\<open>json.dump\<close> wrote: \<open>Stored d\<close> is a file whose content \<^verbatim>\<open>json.load\<close> reads back
  as the dict \<open>d\<close> (the two library functions are taken to be inverse on dicts of JSON
  values), \<open>Garbled\<close> a file on which \<^verbatim>\<open>json.load\<close> or \<^verbatim>\<open>dict.update\<close> raises before
  any key is written, \<open>Missing\<close> no file. A file holding a JSON array of pairs, which
  \<^verbatim>\<open>dict.update\<close> would also accept, is not modelled; the program never writes one.
\<close>

type_synonym state = "string \<rightharpoonup> json"

datatype state_file = Missing | Garbled | Stored state

text \<open>
  Everything one invocation gets from outside: the answers of the five requests, the
  sensor files in the order \<^verbatim>\<open>glob\<close> enumerates them (path and content), Python's float
  parser for strings, the three readings of \<^verbatim>\<open>time.time()\<close> (in \<^verbatim>\<open>run\<close>, in the guard of
  \<^verbatim>\<open>set_fan_mode\<close>, and after a successful set), and whether the state file can be read
  and written.
\<close>

record env =
  login_resp :: response
  thermal_resp :: response
  system_resp :: response
  sysfs_files :: "(string \<times> sensor) list"
  token_resp :: response
  apply_resp :: response
  float_of_str :: "string \<Rightarrow> real option"
  now_run :: real
  now_guard :: real
  now_apply :: real
  state_readable :: bool
  state_writable :: bool

text \<open>The external calls of a run, in the order they are made.\<close>

datatype event =
    Login
  | QueryThermal
  | QuerySystem
  | ReadSensor string
  | QueryToken
  | SetFanMode string "json option"
  | SaveState state

fun is_save :: "event \<Rightarrow> bool" where
  "is_save (SaveState s) = True"
| "is_save Login = False"
| "is_save QueryThermal = False"
| "is_save QuerySystem = False"
| "is_save (ReadSensor p) = False"
| "is_save QueryToken = False"
| "is_save (SetFanMode m t) = False"

fun is_set_fan :: "event \<Rightarrow> bool" where
  "is_set_fan (SetFanMode m t) = True"
| "is_set_fan Login = False"
| "is_set_fan QueryThermal = False"
| "is_set_fan QuerySystem = False"
| "is_set_fan (ReadSensor p) = False"
| "is_set_fan QueryToken = False"
| "is_set_fan (SaveState s) = False"

section \<open>The controller\<close>

text \<open>\<^verbatim>\<open>__init__\<close>: the state of a fresh controller.\<close>

definition init_state :: state where
  "init_state =
     [''last_mode'' \<mapsto> JNull, ''last_change'' \<mapsto> JNum 0,
      ''last_temp'' \<mapsto> JNull, ''temp_source'' \<mapsto> JNull]"

text \<open>
  \<^verbatim>\<open>login\<close>: the session id, or \<open>None\<close> for the \<^verbatim>\<open>RuntimeError\<close> it raises on every
  failure (transport, \<^verbatim>\<open>success\<close> falsy, a body that is no dict, no
  \<^verbatim>\<open>data["data"]["sid"]\<close>).
\<close>

definition login :: "response \<Rightarrow> json option" where
  "login r =
     (case r of
        Failed \<Rightarrow> None
      | Body (JObj kvs) \<Rightarrow>
          if \<not> truthy (dict_get kvs ''success'') then None
          else (case map_of kvs ''data'' of
                  Some (JObj d) \<Rightarrow> map_of d ''sid''
                | _ \<Rightarrow> None)
      | Body _ \<Rightarrow> None)"

text \<open>
  The first stage of \<^verbatim>\<open>get_temperature\<close> (lines 96 to 110): \<open>None\<close> when the stage
  falls through, whether by an exception (all are swallowed) or because \<^verbatim>\<open>success\<close> is
  falsy or \<^verbatim>\<open>temp\<close> is \<^verbatim>\<open>None\<close>.
\<close>

definition thermal_stage :: "(string \<Rightarrow> real option) \<Rightarrow> response \<Rightarrow> real option" where
  "thermal_stage parse r =
     (case r of
        Failed \<Rightarrow> None
      | Body (JObj kvs) \<Rightarrow>
          if truthy (dict_get kvs ''success'') then
            (case map_of kvs ''data'' of
               Some (JObj d) \<Rightarrow>
                 (let temp = py_or (dict_get d ''cpu_temp'') (dict_get d ''system_temp'')
                  in if temp \<noteq> JNull then py_float parse temp else None)
             | _ \<Rightarrow> None)
          else None
      | Body _ \<Rightarrow> None)"

text \<open>
  The second stage (lines 119 to 131). \<^verbatim>\<open>j.get("data", {})\<close> is the empty dict when
  the key is missing; when \<^verbatim>\<open>data\<close> is no dict, the membership test is false or raises,
  or the subscript \<^verbatim>\<open>j["data"]["temp"]\<close> raises, and the stage falls through.
\<close>

definition system_stage :: "(string \<Rightarrow> real option) \<Rightarrow> response \<Rightarrow> real option" where
  "system_stage parse r =
     (case r of
        Failed \<Rightarrow> None
      | Body (JObj kvs) \<Rightarrow>
          if truthy (dict_get kvs ''success'') then
            (case map_of kvs ''data'' of
               Some (JObj d) \<Rightarrow>
                 (case map_of d ''temp'' of
                    Some v \<Rightarrow> py_float parse v
                  | None \<Rightarrow> None)
             | _ \<Rightarrow> None)
          else None
      | Body _ \<Rightarrow> None)"

text \<open>
  The third stage (lines 134 to 141): the loop over the candidate files, inside one
  \<^verbatim>\<open>try\<close>. An exception at a file leaves the loop. The result comes with the files
  opened, in order.
\<close>

fun sysfs_scan :: "(string \<times> sensor) list \<Rightarrow> (real \<times> string) option \<times> event list" where
  "sysfs_scan [] = (None, [])"
| "sysfs_scan ((p, Unreadable) # ps) = (None, [ReadSensor p])"
| "sysfs_scan ((p, Millideg n) # ps) =
     (let temp = real_of_int n / 1000
      in if 10 < temp \<and> temp < 110 then (Some (temp, ''sysfs:'' @ p), [ReadSensor p])
         else (case sysfs_scan ps of (res, tr) \<Rightarrow> (res, ReadSensor p # tr)))"

text \<open>\<^verbatim>\<open>get_temperature\<close>: the pair it returns, and the sources it consulted.\<close>

definition get_temperature :: "env \<Rightarrow> (real option \<times> string) \<times> event list" where
  "get_temperature e =
     (case thermal_stage (float_of_str e) (thermal_resp e) of
        Some t \<Rightarrow> ((Some t, ''SYNO.Core.Hardware.Thermal''), [QueryThermal])
      | None \<Rightarrow>
          (case system_stage (float_of_str e) (system_resp e) of
             Some t \<Rightarrow> ((Some t, ''SYNO.Core.System''), [QueryThermal, QuerySystem])
           | None \<Rightarrow>
               (case sysfs_scan (sysfs_files e) of
                  (Some (t, src), tr) \<Rightarrow> ((Some t, src), QueryThermal # QuerySystem # tr)
                | (None, tr) \<Rightarrow>
                    ((None, ''No temperature source available''),
                     QueryThermal # QuerySystem # tr))))"

text \<open>
  \<^verbatim>\<open>get_fan_token\<close>: the value left in \<^verbatim>\<open>self.token\<close>, \<^verbatim>\<open>None\<close> (\<open>JNull\<close>) unless the
  request succeeds. It never raises.
\<close>

definition get_fan_token :: "response \<Rightarrow> json" where
  "get_fan_token r =
     (case r of
        Failed \<Rightarrow> JNull
      | Body (JObj kvs) \<Rightarrow>
          if truthy (dict_get kvs ''success'') then
            (case map_of kvs ''data'' of
               None \<Rightarrow> JNull
             | Some (JObj d) \<Rightarrow> dict_get d ''SynoToken''
             | Some _ \<Rightarrow> JNull)
          else JNull
      | Body _ \<Rightarrow> JNull)"

text \<open>\<^verbatim>\<open>determine_mode\<close>.\<close>

definition determine_mode :: "real \<Rightarrow> string" where
  "determine_mode temp =
     (if temp < TEMP_QUIET_MAX then QUIET_MODE
      else if temp < TEMP_COOL_MAX then COOL_MODE
      else FULL_MODE)"

text \<open>
  The exceptions that can reach the \<^verbatim>\<open>except\<close> clause of \<^verbatim>\<open>run\<close> from the governor:
  a missing key of the state, or a \<^verbatim>\<open>last_change\<close> that is no number.
\<close>

datatype exn = KeyError | TypeError

text \<open>
  \<^verbatim>\<open>set_fan_mode\<close>: the bool it returns, the state it leaves and the request it made, or
  the exception raised by its guard (before any request and any change of the state).
  The token is sent when it is truthy.
\<close>

definition set_fan_mode ::
    "env \<Rightarrow> json \<Rightarrow> string \<Rightarrow> state \<Rightarrow> exn + (bool \<times> state \<times> event list)" where
  "set_fan_mode e token mode st =
     (case st ''last_change'' of
        None \<Rightarrow> Inl KeyError
      | Some lc \<Rightarrow>
          (case as_number lc of
             None \<Rightarrow> Inl TypeError
           | Some c \<Rightarrow>
               if now_guard e - c < MIN_MODE_CHANGE_INTERVAL then Inr (False, st, [])
               else
                 (let req = SetFanMode mode (if truthy token then Some token else None)
                  in case apply_resp e of
                       Failed \<Rightarrow> Inr (False, st, [req])
                     | Body (JObj kvs) \<Rightarrow>
                         if truthy (dict_get kvs ''success'') then
                           Inr (True,
                                st(''last_mode'' \<mapsto> JStr mode,
                                   ''last_change'' \<mapsto> JNum (now_apply e)),
                                [req])
                         else Inr (False, st, [req])
                     | Body _ \<Rightarrow> Inr (False, st, [req]))))"

text \<open>
  \<^verbatim>\<open>load_state\<close>: the file's dict is merged over the state (\<^verbatim>\<open>dict.update\<close>); a missing
  file, and any exception while opening or reading it, leave the state as it is.
\<close>

definition load_state :: "env \<Rightarrow> state_file \<Rightarrow> state \<Rightarrow> state" where
  "load_state e f st =
     (case f of
        Missing \<Rightarrow> st
      | Garbled \<Rightarrow> st
      | Stored d \<Rightarrow> if state_readable e then st ++ d else st)"

text \<open>
  \<^verbatim>\<open>save_state\<close>: the temporary file is written and moved over the state file; when
  either step raises, the state file is what it was.
\<close>

definition save_state :: "env \<Rightarrow> state \<Rightarrow> state_file \<Rightarrow> state_file" where
  "save_state e st f = (if state_writable e then Stored st else f)"

text \<open>
  The condition of lines 266 to 268, \<^verbatim>\<open>desired_mode != last_mode or current_time -
  last_change > FORCE_REFRESH_INTERVAL\<close>; the subtraction is evaluated only when the
  modes are equal.
\<close>

definition change_condition :: "env \<Rightarrow> string \<Rightarrow> state \<Rightarrow> exn + bool" where
  "change_condition e desired_mode st =
     (case st ''last_mode'' of
        None \<Rightarrow> Inl KeyError
      | Some lm \<Rightarrow>
          if JStr desired_mode \<noteq> lm then Inr True
          else (case st ''last_change'' of
                  None \<Rightarrow> Inl KeyError
                | Some lc \<Rightarrow>
                    (case as_number lc of
                       None \<Rightarrow> Inl TypeError
                     | Some c \<Rightarrow> Inr (now_run e - c > FORCE_REFRESH_INTERVAL))))"

text \<open>
  The \<^verbatim>\<open>try\<close> block of \<^verbatim>\<open>run\<close> (lines 240 to 281): the state when the block is left
  (by its end, by the early \<^verbatim>\<open>return\<close> or by an exception caught at line 280), the
  external calls made, and \<^verbatim>\<open>mode_changed\<close>.
\<close>

definition run_try :: "env \<Rightarrow> state \<Rightarrow> state \<times> event list \<times> bool" where
  "run_try e st =
     (case login (login_resp e) of
        None \<Rightarrow> (st, [Login], False)
      | Some sid \<Rightarrow>
          (case get_temperature e of
             ((None, msg), tr) \<Rightarrow> (st, Login # tr, False)
           | ((Some temp, source), tr) \<Rightarrow>
               (let st1 = st(''last_temp'' \<mapsto> JNum temp, ''temp_source'' \<mapsto> JStr source);
                    token = get_fan_token (token_resp e);
                    desired_mode = determine_mode temp;
                    pre = Login # tr @ [QueryToken]
                in case change_condition e desired_mode st1 of
                     Inl x \<Rightarrow> (st1, pre, False)
                   | Inr False \<Rightarrow> (st1, pre, False)
                   | Inr True \<Rightarrow>
                       (case set_fan_mode e token desired_mode st1 of
                          Inl x \<Rightarrow> (st1, pre, False)
                        | Inr (changed, st2, reqs) \<Rightarrow> (st2, pre @ reqs, changed)))))"

text \<open>
  What one invocation leaves behind: the state in memory at its end, the state it
  loaded, the state file, the external calls in order (the write of the state file
  included), and whether the fan mode was set.
\<close>

record outcome =
  loaded_state :: state
  final_state :: state
  file_after :: state_file
  calls :: "event list"
  mode_changed :: bool

text \<open>\<^verbatim>\<open>run\<close>: load, the \<^verbatim>\<open>try\<close> block, and \<^verbatim>\<open>save_state\<close> in the \<^verbatim>\<open>finally\<close> clause.\<close>

definition run :: "env \<Rightarrow> state_file \<Rightarrow> outcome" where
  "run e f =
     (let st0 = load_state e f init_state
      in case run_try e st0 of
           (st1, tr, changed) \<Rightarrow>
             \<lparr>loaded_state = st0, final_state = st1, file_after = save_state e st1 f,
              calls = tr @ [SaveState st1], mode_changed = changed\<rparr>)"

text \<open>
  A series of invocations, each in its own world, the state file of one being the state
  file the next one finds.
\<close>

fun runs :: "env list \<Rightarrow> state_file \<Rightarrow> outcome list" where
  "runs [] f = []"
| "runs (e # es) f = (let out = run e f in out # runs es (file_after out))"

section \<open>Notions used to state the properties\<close>

text \<open>
  A sensor file whose content reads and parses, and lies outside the open interval from
  10 to 110 degrees after the division by 1000.
\<close>

fun implausible :: "string \<times> sensor \<Rightarrow> bool" where
  "implausible (p, Unreadable) = False"
| "implausible (p, Millideg n) =
     (real_of_int n / 1000 \<le> 10 \<or> 110 \<le> real_of_int n / 1000)"

text \<open>
  The fan-mode request reports success: it returns a dict whose \<^verbatim>\<open>success\<close> is truthy
  (the first branch of lines 196 to 206 of \<^verbatim>\<open>set_fan_mode\<close>).
\<close>

definition reports_success :: "response \<Rightarrow> bool" where
  "reports_success r =
     (case r of Body (JObj kvs) \<Rightarrow> truthy (dict_get kvs ''success'') | _ \<Rightarrow> False)"

text \<open>The fan-mode request of a run, with the token \<^verbatim>\<open>get_fan_token\<close> left.\<close>

definition set_request :: "env \<Rightarrow> string \<Rightarrow> event" where
  "set_request e mode =
     SetFanMode mode
       (if truthy (get_fan_token (token_resp e)) then Some (get_fan_token (token_resp e))
        else None)"

text \<open>
  The two tests a fan-mode request has to pass, each with the clock reading the code
  takes for it: the condition in \<^verbatim>\<open>run\<close> and the guard of \<^verbatim>\<open>set_fan_mode\<close>.
\<close>

definition governor_permits :: "env \<Rightarrow> string \<Rightarrow> json \<Rightarrow> real \<Rightarrow> bool" where
  "governor_permits e desired lm c \<longleftrightarrow>
     \<not> now_guard e - c < 60 \<and> (JStr desired \<noteq> lm \<or> now_run e - c > 300)"

text \<open>The \<^verbatim>\<open>last_change\<close> timestamp a state file holds, when it holds a number.\<close>

fun file_change :: "state_file \<Rightarrow> real option" where
  "file_change (Stored s) =
     (case s ''last_change'' of Some (JNum c) \<Rightarrow> Some c | _ \<Rightarrow> None)"
| "file_change Missing = None"
| "file_change Garbled = None"

section \<open>A sample world\<close>

text \<open>
  A successful API answer with the given \<^verbatim>\<open>data\<close> dict, and a world in which every source
  answers, used to run the controller on concrete inputs.
\<close>

definition ok_body :: "(string \<times> json) list \<Rightarrow> response" where
  "ok_body d = Body (JObj [(''success'', JBool True), (''data'', JObj d)])"

definition world :: env where
  "world =
     \<lparr>login_resp = ok_body [(''sid'', JStr ''s1'')],
      thermal_resp = ok_body [(''cpu_temp'', JNum 47)],
      system_resp = ok_body [(''temp'', JNum 50)],
      sysfs_files =
        [(''hwmon0/temp1_input'', Millideg 5000), (''hwmon1/temp1_input'', Millideg 62000),
         (''hwmon2/temp1_input'', Millideg 45000)],
      token_resp = Failed,
      apply_resp = ok_body [],
      float_of_str = (\<lambda>s. None),
      now_run = 1000, now_guard = 1000, now_apply = 1001,
      state_readable = True, state_writable = True\<rparr>"

text \<open>A state file content as the controller writes it, with the given mode and time.\<close>

definition stored_state :: "string \<Rightarrow> json \<Rightarrow> state" where
  "stored_state m c =
     [''last_mode'' \<mapsto> JStr m, ''last_change'' \<mapsto> c,
      ''last_temp'' \<mapsto> JNum 41, ''temp_source'' \<mapsto> JStr ''SYNO.Core.System'']"

text \<open>A later, hotter moment of the same world.\<close>

definition hot_world :: env where
  "hot_world =
     world\<lparr>thermal_resp := ok_body [(''cpu_temp'', JNum 60)],
           now_run := 1100, now_guard := 1100, now_apply := 1101\<rparr>"

text \<open>
  A later moment at which the state file cannot be read and the login fails; the file
  can still be written.
\<close>

definition blind_world :: env where
  "blind_world =
     world\<lparr>login_resp := Failed, state_readable := False,
           now_run := 1100, now_guard := 1100, now_apply := 1101\<rparr>"

section \<open>The mode classifier\<close>

text \<open>
  C1. The classifier is a total function of the temperature alone: below 40 it returns
  the quiet mode, from 40 up to but excluding 55 the cool mode, from 55 on the full
  mode; 40 itself is cool and 55 itself is full. The three mode names are distinct.
\<close>

theorem determine_mode_thresholds:
  "(t < 40 \<longrightarrow> determine_mode t = QUIET_MODE) \<and>
   (40 \<le> t \<and> t < 55 \<longrightarrow> determine_mode t = COOL_MODE) \<and>
   (55 \<le> t \<longrightarrow> determine_mode t = FULL_MODE) \<and>
   determine_mode 40 = COOL_MODE \<and> determine_mode 55 = FULL_MODE \<and>
   QUIET_MODE \<noteq> COOL_MODE \<and> COOL_MODE \<noteq> FULL_MODE \<and> QUIET_MODE \<noteq> FULL_MODE"
  by (simp add: determine_mode_def TEMP_QUIET_MAX_def TEMP_COOL_MAX_def
      QUIET_MODE_def COOL_MODE_def FULL_MODE_def)

theorem determine_mode_thresholds_witness:
  "determine_mode 39.9 = QUIET_MODE \<and> determine_mode 47 = COOL_MODE \<and>
   determine_mode 54.9 = COOL_MODE \<and> determine_mode 61.5 = FULL_MODE"
  using determine_mode_thresholds [of "39.9"] determine_mode_thresholds [of 47]
    determine_mode_thresholds [of "54.9"] determine_mode_thresholds [of "61.5"]
  by simp

section \<open>Auxiliary facts\<close>

subsection \<open>The sensor scan\<close>

lemma sysfs_scan_skip:
  "list_all implausible pre \<Longrightarrow>
   sysfs_scan (pre @ rest) =
     (fst (sysfs_scan rest), map (\<lambda>x. ReadSensor (fst x)) pre @ snd (sysfs_scan rest))"
proof (induction pre)
  case Nil
  then show ?case by simp
next
  case (Cons a pre)
  obtain p s where a: "a = (p, s)" by (cases a)
  from Cons.prems a obtain n where s: "s = Millideg n"
    and bad: "real_of_int n / 1000 \<le> 10 \<or> 110 \<le> real_of_int n / 1000"
    by (cases s) auto
  from Cons.prems have "list_all implausible pre" by simp
  from Cons.IH [OF this] bad show ?case
    by (auto simp: a s Let_def)
qed

lemma sysfs_scan_abort:
  "list_all implausible pre \<Longrightarrow>
   sysfs_scan (pre @ (p, Unreadable) # rest) =
     (None, map (\<lambda>x. ReadSensor (fst x)) pre @ [ReadSensor p])"
  by (simp add: sysfs_scan_skip)


lemma sysfs_scan_exhausted:
  "list_all implausible fs \<Longrightarrow> sysfs_scan fs = (None, map (\<lambda>x. ReadSensor (fst x)) fs)"
  using sysfs_scan_skip [of fs "[]"] by simp

lemma sysfs_scan_calls:
  "\<not> list_ex is_set_fan (snd (sysfs_scan fs)) \<and> \<not> list_ex is_save (snd (sysfs_scan fs))"
proof (induction fs)
  case Nil
  show ?case by simp
next
  case (Cons a fs)
  obtain p s where a: "a = (p, s)" by (cases a)
  show ?case
  proof (cases s)
    case Unreadable
    then show ?thesis by (simp add: a)
  next
    case (Millideg n)
    with Cons.IH show ?thesis
      by (cases "sysfs_scan fs") (simp add: a Let_def)
  qed
qed

lemma get_temperature_calls:
  "\<not> list_ex is_set_fan (snd (get_temperature e)) \<and>
   \<not> list_ex is_save (snd (get_temperature e))"
  using sysfs_scan_calls [of "sysfs_files e"]
  by (auto simp: get_temperature_def split: option.splits prod.splits)

subsection \<open>The governor and the run\<close>

lemma set_fan_mode_numeric:
  assumes "st ''last_change'' = Some lc" and "as_number lc = Some c"
  shows "set_fan_mode e token mode st =
     (if now_guard e - c < 60 then Inr (False, st, [])
      else if reports_success (apply_resp e) then
        Inr (True, st(''last_mode'' \<mapsto> JStr mode, ''last_change'' \<mapsto> JNum (now_apply e)),
             [SetFanMode mode (if truthy token then Some token else None)])
      else Inr (False, st, [SetFanMode mode (if truthy token then Some token else None)]))"
  using assms
  by (simp add: set_fan_mode_def reports_success_def MIN_MODE_CHANGE_INTERVAL_def Let_def
      split: response.splits json.splits)

lemma set_fan_mode_raises:
  "st ''last_change'' = Some lc \<Longrightarrow> as_number lc = None \<Longrightarrow>
   set_fan_mode e token mode st = Inl TypeError"
  by (simp add: set_fan_mode_def)

lemma change_condition_numeric:
  assumes "st ''last_mode'' = Some lm" and "st ''last_change'' = Some lc"
    and "as_number lc = Some c"
  shows "change_condition e desired st =
           Inr (JStr desired \<noteq> lm \<or> now_run e - c > 300)"
  using assms by (simp add: change_condition_def FORCE_REFRESH_INTERVAL_def)

lemma run_try_numeric:
  assumes lg: "login (login_resp e) = Some sid"
    and gt: "get_temperature e = ((Some temp, src), tr)"
    and lm: "st ''last_mode'' = Some lm"
    and lc: "st ''last_change'' = Some lc"
    and c: "as_number lc = Some c"
  shows "run_try e st =
     (let st1 = st(''last_temp'' \<mapsto> JNum temp, ''temp_source'' \<mapsto> JStr src);
          pre = Login # tr @ [QueryToken];
          desired = determine_mode temp
      in if governor_permits e desired lm c then
           if reports_success (apply_resp e) then
             (st1(''last_mode'' \<mapsto> JStr desired, ''last_change'' \<mapsto> JNum (now_apply e)),
              pre @ [set_request e desired], True)
           else (st1, pre @ [set_request e desired], False)
         else (st1, pre, False))"
proof -
  let ?st1 = "st(''last_temp'' \<mapsto> JNum temp, ''temp_source'' \<mapsto> JStr src)"
  have lm1: "?st1 ''last_mode'' = Some lm" and lc1: "?st1 ''last_change'' = Some lc"
    using lm lc by simp_all
  show ?thesis
    unfolding run_try_def
    by (simp add: lg gt Let_def change_condition_numeric [of ?st1, OF lm1 lc1 c]
        set_fan_mode_numeric [of ?st1, OF lc1 c] governor_permits_def set_request_def
        split: bool.splits)
qed

lemma change_condition_raises:
  assumes "st ''last_mode'' = Some lm" and "st ''last_change'' = Some lc"
    and "as_number lc = None"
  shows "change_condition e desired st =
           (if JStr desired \<noteq> lm then Inr True else Inl TypeError)"
  using assms by (simp add: change_condition_def)

lemma run_try_raises:
  assumes lg: "login (login_resp e) = Some sid"
    and gt: "get_temperature e = ((Some temp, src), tr)"
    and lm: "st ''last_mode'' = Some lm"
    and lc: "st ''last_change'' = Some lc"
    and c: "as_number lc = None"
  shows "run_try e st =
     (st(''last_temp'' \<mapsto> JNum temp, ''temp_source'' \<mapsto> JStr src),
      Login # tr @ [QueryToken], False)"
proof -
  let ?st1 = "st(''last_temp'' \<mapsto> JNum temp, ''temp_source'' \<mapsto> JStr src)"
  have lm1: "?st1 ''last_mode'' = Some lm" and lc1: "?st1 ''last_change'' = Some lc"
    using lm lc by simp_all
  show ?thesis
    unfolding run_try_def
    by (simp add: lg gt Let_def change_condition_raises [of ?st1, OF lm1 lc1 c]
        set_fan_mode_raises [of ?st1, OF lc1 c] split: bool.splits)
qed

lemma load_state_keys:
  "\<exists>lm lc. load_state e f init_state ''last_mode'' = Some lm \<and>
     load_state e f init_state ''last_change'' = Some lc"
  by (cases f) (auto simp: load_state_def init_state_def map_add_def split: option.splits)


subsection \<open>The stages on the sample answers\<close>

lemma thermal_stage_world [simp]:
  "thermal_stage f (ok_body [(''cpu_temp'', JNum 47)]) = Some 47"
  "thermal_stage f Failed = None"
  "thermal_stage f (ok_body [(''cpu_temp'', JNum 0)]) = None"
  by (simp_all add: thermal_stage_def ok_body_def dict_get_def py_or_def)

lemma system_stage_world [simp]:
  "system_stage f (ok_body [(''temp'', JNum 50)]) = Some 50"
  "system_stage f Failed = None"
  by (simp_all add: system_stage_def ok_body_def dict_get_def)

lemma thermal_stage_truthy:
  "truthy v \<Longrightarrow> map_of d ''cpu_temp'' = Some v \<Longrightarrow>
   thermal_stage f (ok_body d) = py_float f v"
  by (cases v) (auto simp: thermal_stage_def ok_body_def dict_get_def py_or_def)

section \<open>The temperature resolver\<close>



text \<open>
  C10. In the sensor scan an exception at one file ends the whole scan: when the two
  queries fall through and the files before the failing one are all out of range, the
  resolver returns no temperature, whatever the files after the failing one hold, and
  none of them is opened.
\<close>

theorem sysfs_scan_aborts_on_exception:
  "thermal_stage (float_of_str e) (thermal_resp e) = None \<Longrightarrow>
   system_stage (float_of_str e) (system_resp e) = None \<Longrightarrow>
   sysfs_files e = pre @ (p, Unreadable) # rest \<Longrightarrow>
   list_all implausible pre \<Longrightarrow>
   get_temperature e =
     ((None, ''No temperature source available''),
      QueryThermal # QuerySystem # map (\<lambda>x. ReadSensor (fst x)) pre @ [ReadSensor p])"
  by (simp add: get_temperature_def sysfs_scan_abort)

theorem sysfs_scan_aborts_on_exception_witness:
  "get_temperature (world\<lparr>thermal_resp := Failed, system_resp := Failed,
       sysfs_files := [(''hwmon0/temp1_input'', Millideg 5000),
                       (''hwmon1/temp1_input'', Unreadable),
                       (''hwmon2/temp1_input'', Millideg 45000)]\<rparr>) =
     ((None, ''No temperature source available''),
      [QueryThermal, QuerySystem, ReadSensor ''hwmon0/temp1_input'',
       ReadSensor ''hwmon1/temp1_input''])"
  using sysfs_scan_aborts_on_exception [of
      "world\<lparr>thermal_resp := Failed, system_resp := Failed,
         sysfs_files := [(''hwmon0/temp1_input'', Millideg 5000),
                         (''hwmon1/temp1_input'', Unreadable),
                         (''hwmon2/temp1_input'', Millideg 45000)]\<rparr>"
      "[(''hwmon0/temp1_input'', Millideg 5000)]" "''hwmon1/temp1_input''"
      "[(''hwmon2/temp1_input'', Millideg 45000)]"]
  by (simp add: world_def)

text \<open>
  C6. A successful thermal answer whose \<^verbatim>\<open>cpu_temp\<close> is the number 0, with no
  \<^verbatim>\<open>system_temp\<close>: the field is present and numeric, yet \<^verbatim>\<open>cpu_temp or system_temp\<close>
  drops it, the first stage falls through and the reading comes from the second source.
\<close>

theorem zero_cpu_temp_falls_through:
  "get_temperature (world\<lparr>thermal_resp := ok_body [(''cpu_temp'', JNum 0)]\<rparr>) =
     ((Some 50, ''SYNO.Core.System''), [QueryThermal, QuerySystem])"
  by (simp add: get_temperature_def world_def)

section \<open>Auxiliary facts about a run\<close>

lemma run_fields:
  "loaded_state (run e f) = load_state e f init_state"
  "final_state (run e f) = fst (run_try e (load_state e f init_state))"
  "calls (run e f) =
     fst (snd (run_try e (load_state e f init_state))) @
     [SaveState (fst (run_try e (load_state e f init_state)))]"
  "mode_changed (run e f) = snd (snd (run_try e (load_state e f init_state)))"
  "file_after (run e f) = save_state e (fst (run_try e (load_state e f init_state))) f"
  by (simp_all add: run_def Let_def split: prod.splits)

lemma run_try_login_fails:
  "login (login_resp e) = None \<Longrightarrow> run_try e st = (st, [Login], False)"
  by (simp add: run_try_def)

lemma run_try_no_temperature:
  "login (login_resp e) = Some sid \<Longrightarrow> get_temperature e = ((None, msg), tr) \<Longrightarrow>
   run_try e st = (st, Login # tr, False)"
  by (simp add: run_try_def)

lemma get_temperature_calls_eq:
  "get_temperature e = (r, tr) \<Longrightarrow> \<not> list_ex is_set_fan tr \<and> \<not> list_ex is_save tr"
  using get_temperature_calls [of e] by simp

lemma set_request_kind [simp]:
  "is_set_fan (set_request e m)" "\<not> is_save (set_request e m)"
  by (simp_all add: set_request_def)

text \<open>The three shapes of the try block once the temperature is known.\<close>

lemma run_try_shapes:
  assumes lg: "login (login_resp e) = Some sid"
    and gt: "get_temperature e = ((Some temp, src), tr)"
    and lm: "st ''last_mode'' = Some lm"
    and lc: "st ''last_change'' = Some lc"
  shows "(\<exists>c. as_number lc = Some c \<and> governor_permits e (determine_mode temp) lm c \<and>
            reports_success (apply_resp e) \<and>
            run_try e st =
              (st(''last_temp'' \<mapsto> JNum temp, ''temp_source'' \<mapsto> JStr src,
                  ''last_mode'' \<mapsto> JStr (determine_mode temp),
                  ''last_change'' \<mapsto> JNum (now_apply e)),
               Login # tr @ [QueryToken, set_request e (determine_mode temp)], True)) \<or>
         (\<exists>c. as_number lc = Some c \<and> governor_permits e (determine_mode temp) lm c \<and>
            \<not> reports_success (apply_resp e) \<and>
            run_try e st =
              (st(''last_temp'' \<mapsto> JNum temp, ''temp_source'' \<mapsto> JStr src),
               Login # tr @ [QueryToken, set_request e (determine_mode temp)], False)) \<or>
         ((\<forall>c. as_number lc = Some c \<longrightarrow> \<not> governor_permits e (determine_mode temp) lm c) \<and>
            run_try e st =
              (st(''last_temp'' \<mapsto> JNum temp, ''temp_source'' \<mapsto> JStr src),
               Login # tr @ [QueryToken], False))"
proof (cases "as_number lc")
  case None
  from run_try_raises [OF lg gt lm lc None] None show ?thesis by simp
next
  case (Some c)
  from run_try_numeric [OF lg gt lm lc Some] Some show ?thesis
    by (simp add: Let_def)
qed

lemma run_try_calls:
  "\<not> list_ex is_save (fst (snd (run_try e st)))"
proof (cases "login (login_resp e)")
  case None
  then show ?thesis by (simp add: run_try_login_fails)
next
  case (Some sid)
  obtain r src tr where gt: "get_temperature e = ((r, src), tr)"
    by (cases "get_temperature e") auto
  from get_temperature_calls_eq [OF gt] have tr: "\<not> list_ex is_save tr" by simp
  show ?thesis
  proof (cases r)
    case None
    with Some gt tr show ?thesis by (simp add: run_try_no_temperature)
  next
    case (Some temp)
    note t = this
    show ?thesis
    proof (cases "st ''last_mode''")
      case None
      with \<open>login (login_resp e) = Some sid\<close> gt t tr show ?thesis
        by (simp add: run_try_def change_condition_def Let_def)
    next
      case lm: (Some lm)
      show ?thesis
      proof (cases "st ''last_change''")
        case None
        with \<open>login (login_resp e) = Some sid\<close> gt t tr lm show ?thesis
          by (simp add: run_try_def change_condition_def set_fan_mode_def Let_def
              split: bool.splits)
      next
        case (Some lc)
        from run_try_shapes [OF \<open>login (login_resp e) = Some sid\<close> gt [unfolded t] lm Some] tr
        show ?thesis by auto
      qed
    qed
  qed
qed


subsection \<open>The sample world, evaluated\<close>

lemma world_login [simp]: "login (login_resp world) = Some (JStr ''s1'')"
  by (simp add: world_def login_def ok_body_def dict_get_def)

lemma world_temperature [simp]:
  "get_temperature world = ((Some 47, ''SYNO.Core.Hardware.Thermal''), [QueryThermal])"
  by (simp add: get_temperature_def world_def)

lemma world_fields [simp]:
  "now_run world = 1000" "now_guard world = 1000" "now_apply world = 1001"
  "state_readable world" "state_writable world"
  "reports_success (apply_resp world)"
  by (simp_all add: world_def reports_success_def ok_body_def dict_get_def)

lemma determine_mode_47 [simp]: "determine_mode 47 = ''coolfan''"
  by (simp add: determine_mode_def TEMP_QUIET_MAX_def TEMP_COOL_MAX_def COOL_MODE_def)

lemma load_stored_state [simp]:
  "state_readable e \<Longrightarrow> load_state e (Stored (stored_state m c)) init_state = stored_state m c"
  by (rule ext) (simp add: load_state_def stored_state_def init_state_def map_add_def)

lemma stored_state_fields [simp]:
  "stored_state m c ''last_mode'' = Some (JStr m)"
  "stored_state m c ''last_change'' = Some c"
  by (simp_all add: stored_state_def)

section \<open>The change-rate governor\<close>

text \<open>
  C2. In a run that has logged in and read a temperature, with a numeric
  \<^verbatim>\<open>last_change\<close> loaded, the fan-mode request is made if and only if the time since
  the last change is at least the minimum interval of 60 seconds and the desired mode
  differs from the last mode or that time exceeds the refresh interval of 300 seconds.
  Below 60 seconds no request is made whatever the desired mode; with the desired mode
  equal to the last mode and at most 300 seconds elapsed no request is made. Each of
  the two tests takes its own reading of the clock (\<open>now_run\<close> for the refresh
  test, \<open>now_guard\<close> for the minimum interval), as the code does.
\<close>

theorem fan_request_iff:
  assumes "login (login_resp e) = Some sid"
    and "get_temperature e = ((Some temp, src), tr)"
    and "loaded_state (run e f) ''last_mode'' = Some lm"
    and "loaded_state (run e f) ''last_change'' = Some lc"
    and "as_number lc = Some c"
  shows "(list_ex is_set_fan (calls (run e f)) \<longleftrightarrow>
            MIN_MODE_CHANGE_INTERVAL \<le> now_guard e - c \<and>
            (JStr (determine_mode temp) \<noteq> lm \<or> FORCE_REFRESH_INTERVAL < now_run e - c)) \<and>
         (now_guard e - c < MIN_MODE_CHANGE_INTERVAL \<longrightarrow>
            \<not> list_ex is_set_fan (calls (run e f))) \<and>
         (JStr (determine_mode temp) = lm \<and> now_run e - c \<le> FORCE_REFRESH_INTERVAL \<longrightarrow>
            \<not> list_ex is_set_fan (calls (run e f))) \<and>
         MIN_MODE_CHANGE_INTERVAL = 60 \<and> FORCE_REFRESH_INTERVAL = 300"
proof -
  let ?st = "load_state e f init_state"
  have lm: "?st ''last_mode'' = Some lm" and lc: "?st ''last_change'' = Some lc"
    using assms(3,4) by (simp_all add: run_fields)
  from get_temperature_calls_eq [OF assms(2)] have tr: "\<not> list_ex is_set_fan tr" by simp
  have "list_ex is_set_fan (calls (run e f)) \<longleftrightarrow>
          governor_permits e (determine_mode temp) lm c"
    using run_try_shapes [OF assms(1,2) lm lc] tr assms(5)
    by (auto simp: run_fields)
  then show ?thesis
    by (auto simp: governor_permits_def MIN_MODE_CHANGE_INTERVAL_def FORCE_REFRESH_INTERVAL_def)
qed

theorem fan_request_iff_witness:
  "list_ex is_set_fan (calls (run world (Stored (stored_state ''quietfan'' (JNum 900))))) \<and>
   \<not> list_ex is_set_fan (calls (run world (Stored (stored_state ''quietfan'' (JNum 970))))) \<and>
   \<not> list_ex is_set_fan (calls (run world (Stored (stored_state ''coolfan'' (JNum 700))))) \<and>
   list_ex is_set_fan (calls (run world (Stored (stored_state ''coolfan'' (JNum 699)))))"
  using
    fan_request_iff [of world "JStr ''s1''" 47 "''SYNO.Core.Hardware.Thermal''" "[QueryThermal]"
      "Stored (stored_state ''quietfan'' (JNum 900))" "JStr ''quietfan''" "JNum 900" 900]
    fan_request_iff [of world "JStr ''s1''" 47 "''SYNO.Core.Hardware.Thermal''" "[QueryThermal]"
      "Stored (stored_state ''quietfan'' (JNum 970))" "JStr ''quietfan''" "JNum 970" 970]
    fan_request_iff [of world "JStr ''s1''" 47 "''SYNO.Core.Hardware.Thermal''" "[QueryThermal]"
      "Stored (stored_state ''coolfan'' (JNum 700))" "JStr ''coolfan''" "JNum 700" 700]
    fan_request_iff [of world "JStr ''s1''" 47 "''SYNO.Core.Hardware.Thermal''" "[QueryThermal]"
      "Stored (stored_state ''coolfan'' (JNum 699))" "JStr ''coolfan''" "JNum 699" 699]
  by (simp add: run_fields(1))


section \<open>The ways a run can end\<close>

lemma run_outcome_cases:
  obtains (login_failed) "login (login_resp e) = None"
      "run_try e st = (st, [Login], False)"
  | (no_temperature) sid msg tr where "login (login_resp e) = Some sid"
      "get_temperature e = ((None, msg), tr)" "run_try e st = (st, Login # tr, False)"
  | (resolved) sid temp src tr where "login (login_resp e) = Some sid"
      "get_temperature e = ((Some temp, src), tr)"
proof (cases "login (login_resp e)")
  case None
  then show ?thesis using login_failed by (simp add: run_try_login_fails)
next
  case (Some sid)
  obtain r src tr where gt: "get_temperature e = ((r, src), tr)"
    by (cases "get_temperature e") auto
  show ?thesis
  proof (cases r)
    case None
    with Some gt show ?thesis using no_temperature by (simp add: run_try_no_temperature)
  next
    case t: (Some temp)
    with Some gt show ?thesis using resolved by simp
  qed
qed

lemma mode_changed_iff:
  assumes lg: "login (login_resp e) = Some sid"
    and gt: "get_temperature e = ((Some temp, src), tr)"
    and lm: "load_state e f init_state ''last_mode'' = Some lm"
    and lc: "load_state e f init_state ''last_change'' = Some lc"
    and c: "as_number lc = Some c"
  shows "mode_changed (run e f) \<longleftrightarrow>
           governor_permits e (determine_mode temp) lm c \<and> reports_success (apply_resp e)"
  using run_try_shapes [OF lg gt lm lc] c by (auto simp: run_fields)

lemma run_last_change:
  "final_state (run e f) ''last_change'' =
     (if mode_changed (run e f) then Some (JNum (now_apply e))
      else loaded_state (run e f) ''last_change'')"
proof (cases e "load_state e f init_state" rule: run_outcome_cases)
  case login_failed
  then show ?thesis by (simp add: run_fields)
next
  case (no_temperature sid msg tr)
  then show ?thesis by (simp add: run_fields)
next
  case (resolved sid temp src tr)
  from load_state_keys [of e f] obtain lm lc
    where lm: "load_state e f init_state ''last_mode'' = Some lm"
      and lc: "load_state e f init_state ''last_change'' = Some lc"
    by blast
  from run_try_shapes [OF resolved lm lc] lc show ?thesis
    by (auto simp: run_fields)
qed

lemma mode_changed_guard:
  assumes "mode_changed (run e f)"
  shows "\<exists>lc c. loaded_state (run e f) ''last_change'' = Some lc \<and> as_number lc = Some c \<and>
           60 \<le> now_guard e - c"
proof (cases e "load_state e f init_state" rule: run_outcome_cases)
  case login_failed
  with assms show ?thesis by (simp add: run_fields)
next
  case (no_temperature sid msg tr)
  with assms show ?thesis by (simp add: run_fields)
next
  case (resolved sid temp src tr)
  from load_state_keys [of e f] obtain lm lc
    where lm: "load_state e f init_state ''last_mode'' = Some lm"
      and lc: "load_state e f init_state ''last_change'' = Some lc"
    by blast
  from run_try_shapes [OF resolved lm lc] assms lc show ?thesis
    by (auto simp: run_fields governor_permits_def)
qed


section \<open>The state after a run\<close>

text \<open>
  C4. In a run that has logged in and read a temperature, \<^verbatim>\<open>last_mode\<close> and
  \<^verbatim>\<open>last_change\<close> are written exactly when the fan-mode request was made and reported
  success: then the state at the end is the loaded state with the reading, its source,
  the desired mode and the clock's reading; otherwise (the request failed, or was not
  made, being suppressed by the minimum interval or not needed) it is the loaded state
  with only the reading and its source replaced, and both fields keep the loaded
  values. In either case \<^verbatim>\<open>last_temp\<close> and \<^verbatim>\<open>temp_source\<close> hold the observed reading, and
  this state is what a successful save writes.
\<close>

theorem state_updated_iff_success:
  assumes lg: "login (login_resp e) = Some sid"
    and gt: "get_temperature e = ((Some temp, src), tr)"
  shows
   "(mode_changed (run e f) \<longleftrightarrow>
       list_ex is_set_fan (calls (run e f)) \<and> reports_success (apply_resp e)) \<and>
    (mode_changed (run e f) \<longrightarrow>
       final_state (run e f) =
         (loaded_state (run e f))
           (''last_temp'' \<mapsto> JNum temp, ''temp_source'' \<mapsto> JStr src,
            ''last_mode'' \<mapsto> JStr (determine_mode temp),
            ''last_change'' \<mapsto> JNum (now_apply e))) \<and>
    (\<not> mode_changed (run e f) \<longrightarrow>
       final_state (run e f) =
         (loaded_state (run e f))(''last_temp'' \<mapsto> JNum temp, ''temp_source'' \<mapsto> JStr src) \<and>
       final_state (run e f) ''last_mode'' = loaded_state (run e f) ''last_mode'' \<and>
       final_state (run e f) ''last_change'' = loaded_state (run e f) ''last_change'') \<and>
    final_state (run e f) ''last_temp'' = Some (JNum temp) \<and>
    final_state (run e f) ''temp_source'' = Some (JStr src) \<and>
    (state_writable e \<longrightarrow> file_after (run e f) = Stored (final_state (run e f)))"
proof -
  let ?st = "load_state e f init_state"
  from load_state_keys [of e f] obtain lm lc
    where lm: "?st ''last_mode'' = Some lm" and lc: "?st ''last_change'' = Some lc"
    by blast
  from get_temperature_calls_eq [OF gt] have tr: "\<not> list_ex is_set_fan tr" by simp
  from run_try_shapes [OF lg gt lm lc] tr show ?thesis
    by (auto simp: run_fields save_state_def)
qed

theorem state_updated_iff_success_witness:
  "final_state (run world (Stored (stored_state ''quietfan'' (JNum 900)))) =
     (stored_state ''quietfan'' (JNum 900))
       (''last_temp'' \<mapsto> JNum 47, ''temp_source'' \<mapsto> JStr ''SYNO.Core.Hardware.Thermal'',
        ''last_mode'' \<mapsto> JStr ''coolfan'', ''last_change'' \<mapsto> JNum 1001) \<and>
   final_state (run (world\<lparr>apply_resp := Failed\<rparr>) (Stored (stored_state ''quietfan'' (JNum 900)))) =
     (stored_state ''quietfan'' (JNum 900))
       (''last_temp'' \<mapsto> JNum 47, ''temp_source'' \<mapsto> JStr ''SYNO.Core.Hardware.Thermal'') \<and>
   final_state (run world (Stored (stored_state ''quietfan'' (JNum 970)))) =
     (stored_state ''quietfan'' (JNum 970))
       (''last_temp'' \<mapsto> JNum 47, ''temp_source'' \<mapsto> JStr ''SYNO.Core.Hardware.Thermal'')"
proof -
  let ?w = "world\<lparr>apply_resp := Failed\<rparr>"
  let ?src = "''SYNO.Core.Hardware.Thermal''"
  have lg: "login (login_resp ?w) = Some (JStr ''s1'')"
    using world_login by simp
  have gt: "get_temperature ?w = ((Some 47, ?src), [QueryThermal])"
    by (simp add: get_temperature_def world_def)
  have rd: "state_readable ?w" by simp
  have a: "mode_changed (run world (Stored (stored_state ''quietfan'' (JNum 900))))"
    using mode_changed_iff [OF world_login world_temperature,
        of "Stored (stored_state ''quietfan'' (JNum 900))" "JStr ''quietfan''" "JNum 900" 900]
    by (simp add: governor_permits_def)
  have b: "\<not> mode_changed (run ?w (Stored (stored_state ''quietfan'' (JNum 900))))"
    using mode_changed_iff [OF lg gt,
        of "Stored (stored_state ''quietfan'' (JNum 900))" "JStr ''quietfan''" "JNum 900" 900]
    by (simp add: reports_success_def)
  have c: "\<not> mode_changed (run world (Stored (stored_state ''quietfan'' (JNum 970))))"
    using mode_changed_iff [OF world_login world_temperature,
        of "Stored (stored_state ''quietfan'' (JNum 970))" "JStr ''quietfan''" "JNum 970" 970]
    by (simp add: governor_permits_def)
  from a b c
    state_updated_iff_success [OF world_login world_temperature,
      of "Stored (stored_state ''quietfan'' (JNum 900))"]
    state_updated_iff_success [OF lg gt, of "Stored (stored_state ''quietfan'' (JNum 900))"]
    state_updated_iff_success [OF world_login world_temperature,
      of "Stored (stored_state ''quietfan'' (JNum 970))"]
  show ?thesis
    by (simp add: run_fields(1) rd)
qed


section \<open>Persistence\<close>

text \<open>
  C8. Every run writes the state exactly once, as its last external call, and what it
  writes is the state in memory when the try block was left; the state file then holds
  that state when the write succeeds and is untouched when it fails. When the login
  fails, or when no temperature source is available, the state written is the state
  loaded at the start, diagnostic fields included, and no fan-mode request is made.
  When an exception interrupts the governor (a \<^verbatim>\<open>last_change\<close> that is no number), the
  state written keeps what was changed before it: the reading and its source.
\<close>

theorem state_saved_once:
  "filter is_save (calls (run e f)) = [SaveState (final_state (run e f))] \<and>
   last (calls (run e f)) = SaveState (final_state (run e f)) \<and>
   file_after (run e f) = (if state_writable e then Stored (final_state (run e f)) else f) \<and>
   (login (login_resp e) = None \<longrightarrow>
      final_state (run e f) = loaded_state (run e f) \<and>
      calls (run e f) = [Login, SaveState (loaded_state (run e f))]) \<and>
   (fst (fst (get_temperature e)) = None \<longrightarrow>
      final_state (run e f) = loaded_state (run e f) \<and>
      \<not> list_ex is_set_fan (calls (run e f))) \<and>
   (login (login_resp e) \<noteq> None \<and> get_temperature e = ((Some temp, src), tr) \<and>
    loaded_state (run e f) ''last_change'' = Some lc \<and> as_number lc = None \<longrightarrow>
      final_state (run e f) =
        (loaded_state (run e f))(''last_temp'' \<mapsto> JNum temp, ''temp_source'' \<mapsto> JStr src) \<and>
      \<not> list_ex is_set_fan (calls (run e f)))"
proof -
  let ?st = "load_state e f init_state"
  have once: "filter is_save (calls (run e f)) = [SaveState (final_state (run e f))]"
    using run_try_calls [of e ?st]
    by (simp add: run_fields list_ex_iff filter_empty_conv)
  have lst: "last (calls (run e f)) = SaveState (final_state (run e f))"
    by (simp add: run_fields)
  have written: "file_after (run e f) =
      (if state_writable e then Stored (final_state (run e f)) else f)"
    by (simp add: run_fields save_state_def)
  have auth: "final_state (run e f) = loaded_state (run e f) \<and>
      calls (run e f) = [Login, SaveState (loaded_state (run e f))]"
    if "login (login_resp e) = None"
    using that by (simp add: run_fields run_try_login_fails)
  have notemp: "final_state (run e f) = loaded_state (run e f) \<and>
      \<not> list_ex is_set_fan (calls (run e f))"
    if "fst (fst (get_temperature e)) = None"
  proof (cases e ?st rule: run_outcome_cases)
    case login_failed
    then show ?thesis by (simp add: run_fields)
  next
    case (no_temperature sid msg tr)
    with get_temperature_calls_eq [OF no_temperature(2)] show ?thesis
      by (simp add: run_fields)
  next
    case (resolved sid temp src tr)
    with that show ?thesis by simp
  qed
  have raised: "final_state (run e f) =
        (loaded_state (run e f))(''last_temp'' \<mapsto> JNum temp, ''temp_source'' \<mapsto> JStr src) \<and>
      \<not> list_ex is_set_fan (calls (run e f))"
    if lg: "login (login_resp e) \<noteq> None" and gt: "get_temperature e = ((Some temp, src), tr)"
      and lc: "loaded_state (run e f) ''last_change'' = Some lc" and c: "as_number lc = None"
  proof -
    from lg obtain sid where sid: "login (login_resp e) = Some sid" by auto
    from load_state_keys [of e f] obtain lm
      where lm: "?st ''last_mode'' = Some lm" by blast
    from lc have lc': "?st ''last_change'' = Some lc" by (simp add: run_fields)
    from get_temperature_calls_eq [OF gt] have tr: "\<not> list_ex is_set_fan tr" by simp
    from run_try_raises [OF sid gt lm lc' c] tr show ?thesis
      by (simp add: run_fields)
  qed
  from once lst written auth notemp raised show ?thesis by blast
qed

theorem state_saved_once_witness:
  "calls (run (world\<lparr>login_resp := Failed\<rparr>) (Stored (stored_state ''coolfan'' (JNum 900)))) =
     [Login, SaveState (stored_state ''coolfan'' (JNum 900))] \<and>
   file_after (run (world\<lparr>login_resp := Failed\<rparr>) (Stored (stored_state ''coolfan'' (JNum 900)))) =
     Stored (stored_state ''coolfan'' (JNum 900)) \<and>
   final_state (run (world\<lparr>thermal_resp := Failed, system_resp := Failed, sysfs_files := []\<rparr>)
       (Stored (stored_state ''coolfan'' (JNum 900)))) =
     stored_state ''coolfan'' (JNum 900) \<and>
   final_state (run world (Stored (stored_state ''coolfan'' (JStr ''never'')))) =
     (stored_state ''coolfan'' (JStr ''never''))
       (''last_temp'' \<mapsto> JNum 47, ''temp_source'' \<mapsto> JStr ''SYNO.Core.Hardware.Thermal'')"
proof -
  let ?a = "world\<lparr>login_resp := Failed\<rparr>"
  let ?b = "world\<lparr>thermal_resp := Failed, system_resp := Failed, sysfs_files := []\<rparr>"
  let ?s = "stored_state ''coolfan'' (JNum 900)"
  let ?t = "stored_state ''coolfan'' (JStr ''never'')"
  have a: "login (login_resp ?a) = None" by (simp add: login_def)
  have la: "loaded_state (run ?a (Stored ?s)) = ?s" by (simp add: run_fields(1))
  have wa: "state_writable ?a" by simp
  have b: "fst (fst (get_temperature ?b)) = None"
    by (simp add: get_temperature_def world_def)
  have lb: "loaded_state (run ?b (Stored ?s)) = ?s" by (simp add: run_fields(1))
  have lw: "loaded_state (run world (Stored ?t)) = ?t" by (simp add: run_fields(1))
  have c1: "login (login_resp world) \<noteq> None" by simp
  have c2: "loaded_state (run world (Stored ?t)) ''last_change'' = Some (JStr ''never'')"
    by (simp add: lw)
  have c3: "as_number (JStr ''never'') = None" by simp
  have r1: "final_state (run ?a (Stored ?s)) = ?s \<and>
      calls (run ?a (Stored ?s)) = [Login, SaveState ?s]"
    using state_saved_once [of ?a "Stored ?s"] a la by simp
  have r2: "file_after (run ?a (Stored ?s)) = Stored ?s"
    using state_saved_once [of ?a "Stored ?s"] wa r1 by simp
  have r3: "final_state (run ?b (Stored ?s)) = ?s"
    using state_saved_once [of ?b "Stored ?s"] b lb by simp
  have r4: "final_state (run world (Stored ?t)) =
      ?t(''last_temp'' \<mapsto> JNum 47, ''temp_source'' \<mapsto> JStr ''SYNO.Core.Hardware.Thermal'')"
    using state_saved_once [of world "Stored ?t" 47 "''SYNO.Core.Hardware.Thermal''"
        "[QueryThermal]" "JStr ''never''"] c1 c2 c3 lw world_temperature
    by simp
  from r1 r2 r3 r4 show ?thesis by simp
qed

text \<open>
  C7. Saving a state that has the four fields and loading it into a fresh controller
  gives the same state back, field by field (and key by key, should it hold more),
  when the write and the read both succeed.
\<close>

theorem save_load_roundtrip:
  assumes "state_writable e" and "state_readable e'"
    and "{''last_mode'', ''last_change'', ''last_temp'', ''temp_source''} \<subseteq> dom s"
  shows "load_state e' (save_state e s f) init_state = s"
proof (rule ext)
  fix k
  have "(init_state ++ s) k = s k"
  proof (cases "s k")
    case None
    with assms(3) have "k \<notin> {''last_mode'', ''last_change'', ''last_temp'', ''temp_source''}"
      by (auto simp: dom_def)
    then have "init_state k = None" by (simp add: init_state_def)
    with None show ?thesis by (simp add: map_add_def)
  next
    case (Some v)
    then show ?thesis by (simp add: map_add_def)
  qed
  with assms(1,2) show "load_state e' (save_state e s f) init_state k = s k"
    by (simp add: load_state_def save_state_def)
qed

theorem save_load_roundtrip_witness:
  "load_state world (save_state world (stored_state ''coolfan'' (JNum 900)) Missing) init_state =
     stored_state ''coolfan'' (JNum 900)"
proof -
  have d: "{''last_mode'', ''last_change'', ''last_temp'', ''temp_source''}
          \<subseteq> dom (stored_state ''coolfan'' (JNum 900))"
    by (simp add: stored_state_def)
  have w: "state_writable world" and r: "state_readable world" by simp_all
  from save_load_roundtrip [OF w r d] show ?thesis .
qed


section \<open>Series of runs\<close>

lemma runs_Cons:
  "runs (e # es) f = run e f # runs es (file_after (run e f))"
  by (simp add: Let_def)

lemma run_file_after:
  "state_writable e \<Longrightarrow> file_after (run e f) = Stored (final_state (run e f))"
  by (simp add: run_fields save_state_def)

lemma run_loads_last_change:
  "state_readable e \<Longrightarrow> d ''last_change'' = Some v \<Longrightarrow>
   loaded_state (run e (Stored d)) ''last_change'' = Some v"
  by (simp add: run_fields(1) load_state_def map_add_def)

lemma later_fan_requests:
  assumes "list_all state_readable es" and "list_all state_writable es"
    and "d ''last_change'' = Some v" and "as_number v = Some c" and "b \<le> c"
    and "\<forall>e \<in> set es. b \<le> now_apply e"
    and "j < length es" and "mode_changed (runs es (Stored d) ! j)"
  shows "60 \<le> now_guard (es ! j) - b"
  using assms
proof (induction es arbitrary: d v c j)
  case Nil
  then show ?case by simp
next
  case (Cons e es)
  let ?out = "run e (Stored d)"
  from Cons.prems(1,2) have rd: "state_readable e" and wr: "state_writable e"
    and rds: "list_all state_readable es" and wrs: "list_all state_writable es"
    by simp_all
  have ld: "loaded_state ?out ''last_change'' = Some v"
    using rd Cons.prems(3) by (rule run_loads_last_change)
  show ?case
  proof (cases j)
    case 0
    with Cons.prems(8) have "mode_changed ?out" by (simp add: Let_def)
    from mode_changed_guard [OF this] ld Cons.prems(4) have "60 \<le> now_guard e - c"
      by auto
    with Cons.prems(5) 0 show ?thesis by simp
  next
    case (Suc k)
    let ?d' = "final_state ?out"
    have fa: "file_after ?out = Stored ?d'" using wr by (rule run_file_after)
    from Cons.prems(6) have be: "b \<le> now_apply e" and bes: "\<forall>e \<in> set es. b \<le> now_apply e"
      by simp_all
    obtain v' c' where v': "?d' ''last_change'' = Some v'" and c': "as_number v' = Some c'"
      and bc': "b \<le> c'"
    proof (cases "mode_changed ?out")
      case True
      then have "?d' ''last_change'' = Some (JNum (now_apply e))"
        by (simp add: run_last_change)
      with be that show ?thesis by simp
    next
      case False
      then have "?d' ''last_change'' = Some v"
        by (simp add: run_last_change ld)
      with Cons.prems(4,5) that show ?thesis by simp
    qed
    from Suc Cons.prems(7) have k: "k < length es" by simp
    from Suc Cons.prems(8) have ch: "mode_changed (runs es (Stored ?d') ! k)"
      by (simp add: Let_def fa)
    from Cons.IH [OF rds wrs v' c' bc' bes k ch] Suc show ?thesis by simp
  qed
qed

lemma run_final_changed:
  assumes lg: "login (login_resp e) = Some sid"
    and gt: "get_temperature e = ((Some temp, src), tr)"
    and ch: "mode_changed (run e f)"
  shows "final_state (run e f) =
     (load_state e f init_state)
       (''last_temp'' \<mapsto> JNum temp, ''temp_source'' \<mapsto> JStr src,
        ''last_mode'' \<mapsto> JStr (determine_mode temp),
        ''last_change'' \<mapsto> JNum (now_apply e))"
proof -
  from load_state_keys [of e f] obtain lm lc
    where lm: "load_state e f init_state ''last_mode'' = Some lm"
      and lc: "load_state e f init_state ''last_change'' = Some lc"
    by blast
  from run_try_shapes [OF lg gt lm lc] ch show ?thesis
    by (auto simp: run_fields)
qed

lemma hot_world_login [simp]: "login (login_resp hot_world) = Some (JStr ''s1'')"
  using world_login by (simp add: hot_world_def)

lemma hot_world_temperature [simp]:
  "get_temperature hot_world = ((Some 60, ''SYNO.Core.Hardware.Thermal''), [QueryThermal])"
  by (simp add: get_temperature_def hot_world_def thermal_stage_def ok_body_def
      dict_get_def py_or_def)

lemma hot_world_fields [simp]:
  "now_run hot_world = 1100" "now_guard hot_world = 1100" "now_apply hot_world = 1101"
  "state_readable hot_world" "state_writable hot_world"
  "reports_success (apply_resp hot_world)"
  by (simp_all add: hot_world_def)

lemma determine_mode_60 [simp]: "determine_mode 60 = ''fullfan''"
  by (simp add: determine_mode_def TEMP_QUIET_MAX_def TEMP_COOL_MAX_def FULL_MODE_def)

lemma first_run_changes: "mode_changed (run world Missing)"
  using mode_changed_iff [OF world_login world_temperature, of Missing JNull "JNum 0" 0]
  by (simp add: load_state_def init_state_def governor_permits_def)

lemma first_run_file:
  "file_after (run world Missing) =
     Stored (init_state
       (''last_temp'' \<mapsto> JNum 47, ''temp_source'' \<mapsto> JStr ''SYNO.Core.Hardware.Thermal'',
        ''last_mode'' \<mapsto> JStr ''coolfan'', ''last_change'' \<mapsto> JNum 1001))"
  using run_final_changed [OF world_login world_temperature first_run_changes]
  by (simp add: run_file_after load_state_def)

lemma second_run_changes: "mode_changed (run hot_world (file_after (run world Missing)))"
  using mode_changed_iff [OF hot_world_login hot_world_temperature,
      of "file_after (run world Missing)" "JStr ''coolfan''" "JNum 1001" 1001]
  by (simp add: first_run_file load_state_def governor_permits_def)

text \<open>
  C3. Along any series of runs, each finding the state file the one before left, with
  the state file readable and writable in every run and the clock readings recorded at
  successful requests in non-decreasing order: whenever two runs both set the fan mode
  successfully, the later one passed its guard at least 60 seconds after the timestamp
  the earlier one recorded; so the recorded timestamps of the two changes are at least
  60 seconds apart as well. The series may start from any state file, and each run
  may desire any mode.
\<close>

theorem changes_at_least_min_interval_apart:
  assumes "list_all state_readable es" and "list_all state_writable es"
    and "sorted (map now_apply es)"
    and "i < j" and "j < length es"
    and "mode_changed (runs es f ! i)" and "mode_changed (runs es f ! j)"
  shows "MIN_MODE_CHANGE_INTERVAL \<le> now_guard (es ! j) - now_apply (es ! i) \<and>
         (now_guard (es ! j) \<le> now_apply (es ! j) \<longrightarrow>
            MIN_MODE_CHANGE_INTERVAL \<le> now_apply (es ! j) - now_apply (es ! i))"
proof -
  have "60 \<le> now_guard (es ! j) - now_apply (es ! i)"
    using assms
  proof (induction es arbitrary: f i j)
    case Nil
    then show ?case by simp
  next
    case (Cons e es)
    let ?out = "run e f"
    from Cons.prems(1,2) have wr: "state_writable e"
      and rds: "list_all state_readable es" and wrs: "list_all state_writable es"
      by simp_all
    from Cons.prems(3) have later: "\<forall>e' \<in> set es. now_apply e \<le> now_apply e'"
      and srt: "sorted (map now_apply es)"
      by simp_all
    have fa: "file_after ?out = Stored (final_state ?out)" using wr by (rule run_file_after)
    from Cons.prems(4) obtain k where j: "j = Suc k" by (cases j) auto
    with Cons.prems(5) have k: "k < length es" by simp
    from j Cons.prems(7) have chk: "mode_changed (runs es (Stored (final_state ?out)) ! k)"
      by (simp add: Let_def fa)
    show ?case
    proof (cases i)
      case 0
      with Cons.prems(6) have ch: "mode_changed ?out" by (simp add: Let_def)
      then have lc: "final_state ?out ''last_change'' = Some (JNum (now_apply e))"
        by (simp add: run_last_change)
      have "60 \<le> now_guard (es ! k) - now_apply e"
        using later_fan_requests [OF rds wrs lc _ _ later k chk] by simp
      with 0 j show ?thesis by simp
    next
      case (Suc i')
      with j Cons.prems(4) have lt: "i' < k" by simp
      from Suc Cons.prems(6) have chi: "mode_changed (runs es (Stored (final_state ?out)) ! i')"
        by (simp add: Let_def fa)
      from Cons.IH [OF rds wrs srt lt k chi chk] Suc j show ?thesis by simp
    qed
  qed
  then show ?thesis by (simp add: MIN_MODE_CHANGE_INTERVAL_def)
qed

theorem changes_at_least_min_interval_apart_witness:
  "mode_changed (runs [world, hot_world] Missing ! 0) \<and>
   mode_changed (runs [world, hot_world] Missing ! Suc 0) \<and>
   MIN_MODE_CHANGE_INTERVAL \<le> now_guard hot_world - now_apply world"
proof -
  have a: "mode_changed (runs [world, hot_world] Missing ! 0)"
    using first_run_changes by (simp add: Let_def)
  have b: "mode_changed (runs [world, hot_world] Missing ! Suc 0)"
    using second_run_changes by (simp add: Let_def)
  have c: "list_all state_readable [world, hot_world]"
    "list_all state_writable [world, hot_world]"
    "sorted (map now_apply [world, hot_world])"
    by simp_all
  have d: "0 < Suc 0" "Suc 0 < length [world, hot_world]" by simp_all
  from changes_at_least_min_interval_apart [OF c d a b] a b show ?thesis
    by simp
qed


subsection \<open>The timestamp in the state file\<close>

lemma file_change_SomeD:
  assumes "file_change f = Some c"
  obtains d where "f = Stored d" and "d ''last_change'' = Some (JNum c)"
proof (cases f)
  case Missing
  with assms show ?thesis by simp
next
  case Garbled
  with assms show ?thesis by simp
next
  case (Stored d)
  with assms have "d ''last_change'' = Some (JNum c)"
    by (auto split: option.splits json.splits)
  with Stored that show ?thesis by blast
qed

lemma run_file_change:
  assumes rd: "state_readable e" and f: "file_change f = Some c"
  shows "file_change (file_after (run e f)) =
           Some (if mode_changed (run e f) \<and> state_writable e then now_apply e else c)"
    and "loaded_state (run e f) ''last_change'' = Some (JNum c)"
proof -
  from f obtain d where d: "f = Stored d" and lc: "d ''last_change'' = Some (JNum c)"
    by (rule file_change_SomeD)
  show ld: "loaded_state (run e f) ''last_change'' = Some (JNum c)"
    unfolding d using rd lc by (rule run_loads_last_change)
  have fin: "final_state (run e f) ''last_change'' =
      Some (JNum (if mode_changed (run e f) then now_apply e else c))"
    by (simp add: run_last_change ld)
  show "file_change (file_after (run e f)) =
           Some (if mode_changed (run e f) \<and> state_writable e then now_apply e else c)"
  proof (cases "state_writable e")
    case True
    then have "file_after (run e f) = Stored (final_state (run e f))"
      by (rule run_file_after)
    with fin True show ?thesis by simp
  next
    case False
    then have "file_after (run e f) = f" by (simp add: run_fields(5) save_state_def)
    with f False show ?thesis by simp
  qed
qed

lemma blind_world_fields [simp]:
  "login (login_resp blind_world) = None" "\<not> state_readable blind_world"
  "state_writable blind_world"
  by (simp_all add: blind_world_def login_def)

lemma blind_run:
  "final_state (run blind_world f) = init_state"
  "\<not> mode_changed (run blind_world f)"
  "file_after (run blind_world f) = Stored init_state"
proof -
  have ld: "load_state blind_world f init_state = init_state"
    by (cases f) (simp_all add: load_state_def)
  show "final_state (run blind_world f) = init_state"
    by (simp add: run_fields(2) run_try_login_fails ld)
  then show "file_after (run blind_world f) = Stored init_state"
    by (simp add: run_file_after)
  show "\<not> mode_changed (run blind_world f)"
    by (simp add: run_fields(4) run_try_login_fails)
qed

lemma quiet_start_first_run:
  "mode_changed (run world (Stored (stored_state ''quietfan'' (JNum 900))))"
  using mode_changed_iff [OF world_login world_temperature,
      of "Stored (stored_state ''quietfan'' (JNum 900))" "JStr ''quietfan''" "JNum 900" 900]
  by (simp add: governor_permits_def)

lemma quiet_start_first_file:
  "file_after (run world (Stored (stored_state ''quietfan'' (JNum 900)))) =
     Stored ((stored_state ''quietfan'' (JNum 900))
       (''last_temp'' \<mapsto> JNum 47, ''temp_source'' \<mapsto> JStr ''SYNO.Core.Hardware.Thermal'',
        ''last_mode'' \<mapsto> JStr ''coolfan'', ''last_change'' \<mapsto> JNum 1001))"
  using run_final_changed [OF world_login world_temperature quiet_start_first_run]
  by (simp add: run_file_after)

lemma quiet_start_second_run:
  "mode_changed (run hot_world
     (file_after (run world (Stored (stored_state ''quietfan'' (JNum 900))))))"
  using mode_changed_iff [OF hot_world_login hot_world_temperature,
      of "file_after (run world (Stored (stored_state ''quietfan'' (JNum 900))))"
         "JStr ''coolfan''" "JNum 1001" 1001]
  by (simp add: quiet_start_first_file load_state_def governor_permits_def)

text \<open>
  C9, as amended. Along a series of runs in which every run can read the state file,
  starting from a file that holds the number \<open>c0\<close> as \<^verbatim>\<open>last_change\<close>, and with the
  clock at every successful fan-mode request at least the \<^verbatim>\<open>last_change\<close> that run
  loaded: after every run the file holds a number as \<^verbatim>\<open>last_change\<close>, these numbers
  never decrease from \<open>c0\<close> on, and each is the clock's reading of its run when that
  run's request succeeded and its save was written, and the number before it in every
  other case. So the timestamp advances only when a fan mode was set.
\<close>

theorem saved_last_change_monotone:
  assumes "list_all state_readable es"
    and "file_change f = Some c0"
    and "\<forall>i<length es. mode_changed (runs es f ! i) \<longrightarrow>
           (\<forall>c. loaded_state (runs es f ! i) ''last_change'' = Some (JNum c) \<longrightarrow>
              c \<le> now_apply (es ! i))"
  shows "\<exists>cs. map (\<lambda>out. file_change (file_after out)) (runs es f) = map Some cs \<and>
           sorted (c0 # cs) \<and>
           (\<forall>i<length es.
              (c0 # cs) ! Suc i =
                (if mode_changed (runs es f ! i) \<and> state_writable (es ! i)
                 then now_apply (es ! i) else (c0 # cs) ! i))"
  using assms
proof (induction es arbitrary: f c0)
  case Nil
  then show ?case by simp
next
  case (Cons e es)
  let ?out = "run e f"
  let ?c1 = "if mode_changed ?out \<and> state_writable e then now_apply e else c0"
  from Cons.prems(1) have rd: "state_readable e" and rds: "list_all state_readable es"
    by simp_all
  note step = run_file_change [OF rd Cons.prems(2)]
  have le: "c0 \<le> ?c1"
  proof (cases "mode_changed ?out")
    case True
    from Cons.prems(3) have "mode_changed (runs (e # es) f ! 0) \<longrightarrow>
        (\<forall>c. loaded_state (runs (e # es) f ! 0) ''last_change'' = Some (JNum c) \<longrightarrow>
           c \<le> now_apply ((e # es) ! 0))"
      by blast
    with True step(2) show ?thesis by (simp add: Let_def)
  next
    case False
    then show ?thesis by simp
  qed
  have clock: "\<forall>i<length es. mode_changed (runs es (file_after ?out) ! i) \<longrightarrow>
      (\<forall>c. loaded_state (runs es (file_after ?out) ! i) ''last_change'' = Some (JNum c) \<longrightarrow>
         c \<le> now_apply (es ! i))"
  proof (intro allI impI)
    fix i c
    assume i: "i < length es"
      and ch: "mode_changed (runs es (file_after ?out) ! i)"
      and ld: "loaded_state (runs es (file_after ?out) ! i) ''last_change'' = Some (JNum c)"
    from i have "Suc i < length (e # es)" by simp
    with Cons.prems(3) have "mode_changed (runs (e # es) f ! Suc i) \<longrightarrow>
        (\<forall>c. loaded_state (runs (e # es) f ! Suc i) ''last_change'' = Some (JNum c) \<longrightarrow>
           c \<le> now_apply ((e # es) ! Suc i))"
      by blast
    with ch ld show "c \<le> now_apply (es ! i)" by (simp add: Let_def)
  qed
  from Cons.IH [OF rds step(1) clock] obtain cs
    where m: "map (\<lambda>out. file_change (file_after out)) (runs es (file_after ?out)) = map Some cs"
      and s: "sorted (?c1 # cs)"
      and p: "\<forall>i<length es. (?c1 # cs) ! Suc i =
                (if mode_changed (runs es (file_after ?out) ! i) \<and> state_writable (es ! i)
                 then now_apply (es ! i) else (?c1 # cs) ! i)"
    by blast
  have m': "map (\<lambda>out. file_change (file_after out)) (runs (e # es) f) = map Some (?c1 # cs)"
    using m step(1) by (simp add: Let_def)
  have s': "sorted (c0 # ?c1 # cs)"
    using s le by (simp only: sorted2)
  have p': "\<forall>i<length (e # es). (c0 # ?c1 # cs) ! Suc i =
                (if mode_changed (runs (e # es) f ! i) \<and> state_writable ((e # es) ! i)
                 then now_apply ((e # es) ! i) else (c0 # ?c1 # cs) ! i)"
  proof (intro allI impI)
    fix i
    assume i: "i < length (e # es)"
    show "(c0 # ?c1 # cs) ! Suc i =
                (if mode_changed (runs (e # es) f ! i) \<and> state_writable ((e # es) ! i)
                 then now_apply ((e # es) ! i) else (c0 # ?c1 # cs) ! i)"
    proof (cases i)
      case 0
      then show ?thesis by (simp add: Let_def)
    next
      case (Suc k)
      with i have "k < length es" by simp
      with p have "(?c1 # cs) ! Suc k =
                (if mode_changed (runs es (file_after ?out) ! k) \<and> state_writable (es ! k)
                 then now_apply (es ! k) else (?c1 # cs) ! k)"
        by blast
      with Suc show ?thesis by (simp add: Let_def)
    qed
  qed
  from m' s' p' show ?case by blast
qed

theorem saved_last_change_monotone_witness:
  "map (\<lambda>out. file_change (file_after out))
     (runs [world, hot_world] (Stored (stored_state ''quietfan'' (JNum 900)))) =
   [Some 1001, Some 1101]"
proof -
  let ?f = "Stored (stored_state ''quietfan'' (JNum 900))"
  let ?es = "[world, hot_world]"
  have rd: "list_all state_readable ?es" by simp
  have st: "file_change ?f = Some 900" by simp
  have ch0: "mode_changed (runs ?es ?f ! 0)"
    using quiet_start_first_run by (simp add: Let_def)
  have ch1: "mode_changed (runs ?es ?f ! Suc 0)"
    using quiet_start_second_run by (simp add: Let_def)
  have ld0: "loaded_state (runs ?es ?f ! 0) ''last_change'' = Some (JNum 900)"
    by (simp add: Let_def run_fields(1))
  have ld1: "loaded_state (runs ?es ?f ! Suc 0) ''last_change'' = Some (JNum 1001)"
    by (simp add: Let_def run_fields(1) quiet_start_first_file load_state_def)
  have clock: "\<forall>i<length ?es. mode_changed (runs ?es ?f ! i) \<longrightarrow>
      (\<forall>c. loaded_state (runs ?es ?f ! i) ''last_change'' = Some (JNum c) \<longrightarrow>
         c \<le> now_apply (?es ! i))"
  proof (intro allI impI)
    fix i c
    assume i: "i < length ?es"
      and ld: "loaded_state (runs ?es ?f ! i) ''last_change'' = Some (JNum c)"
    from i have "i = 0 \<or> i = Suc 0" by auto
    then show "c \<le> now_apply (?es ! i)"
    proof
      assume "i = 0"
      with ld ld0 show ?thesis by simp
    next
      assume "i = Suc 0"
      with ld ld1 show ?thesis by simp
    qed
  qed
  from saved_last_change_monotone [OF rd st clock] obtain cs
    where m: "map (\<lambda>out. file_change (file_after out)) (runs ?es ?f) = map Some cs"
      and p: "\<forall>i<length ?es. (900 # cs) ! Suc i =
                (if mode_changed (runs ?es ?f ! i) \<and> state_writable (?es ! i)
                 then now_apply (?es ! i) else (900 # cs) ! i)"
    by blast
  from map_eq_imp_length_eq [OF m] have "length cs = Suc (Suc 0)"
    by (simp add: Let_def)
  then obtain a b where cs: "cs = [a, b]"
    by (auto simp: length_Suc_conv)
  from p have "(900 # cs) ! Suc 0 =
      (if mode_changed (runs ?es ?f ! 0) \<and> state_writable (?es ! 0)
       then now_apply (?es ! 0) else (900 # cs) ! 0)"
    by simp
  with ch0 cs have a: "a = 1001" by simp
  from p have "(900 # cs) ! Suc (Suc 0) =
      (if mode_changed (runs ?es ?f ! Suc 0) \<and> state_writable (?es ! Suc 0)
       then now_apply (?es ! Suc 0) else (900 # cs) ! Suc 0)"
    by simp
  with ch1 cs have b: "b = 1101" by simp
  from m cs a b show ?thesis by simp
qed

text \<open>
  Without the condition that the file can be read the timestamp can fall back. A first
  run from no file sets the fan mode and saves 1001; the second run fails to read the
  file, so it starts from the defaults of \<^verbatim>\<open>__init__\<close>, fails to log in, sets no fan
  mode, and its save, which succeeds, writes 0.
\<close>

theorem last_change_reset_counterexample:
  "state_writable world \<and> state_writable blind_world \<and>
   mode_changed (runs [world, blind_world] Missing ! 0) \<and>
   loaded_state (runs [world, blind_world] Missing ! 0) ''last_change'' = Some (JNum 0) \<and>
   0 \<le> now_apply world \<and>
   \<not> mode_changed (runs [world, blind_world] Missing ! Suc 0) \<and>
   file_change (file_after (runs [world, blind_world] Missing ! 0)) = Some 1001 \<and>
   file_change (file_after (runs [world, blind_world] Missing ! Suc 0)) = Some 0"
proof -
  have a: "mode_changed (runs [world, blind_world] Missing ! 0)"
    using first_run_changes by (simp add: Let_def)
  have b: "loaded_state (runs [world, blind_world] Missing ! 0) ''last_change'' = Some (JNum 0)"
    by (simp add: Let_def run_fields(1) load_state_def init_state_def)
  have c: "\<not> mode_changed (runs [world, blind_world] Missing ! Suc 0)"
    by (simp add: Let_def blind_run)
  have d: "file_change (file_after (runs [world, blind_world] Missing ! 0)) = Some 1001"
    by (simp add: Let_def first_run_file)
  have e: "file_change (file_after (runs [world, blind_world] Missing ! Suc 0)) = Some 0"
    by (simp add: Let_def blind_run init_state_def)
  from a b c d e show ?thesis by simp
qed

end
